theory Spec2Isabelle
  imports Main "HOL-Library.Multiset"
begin

section \<open>Go values shared by the packages\<close>

text \<open>
  A Go \<open>error\<close> is an interface value. The ones this program builds or passes on are:
  the two context errors, an error that only carries a message (\<open>errors.New\<close>, and
  \<open>fmt.Errorf\<close> without \<open>%w\<close>), and an error that wraps another one
  (\<open>fmt.Errorf\<close> with \<open>%w\<close>), which keeps its full message and the wrapped error.
\<close>

datatype go_error =
    Canceled
  | DeadlineExceeded
  | ErrorString string
  | WrapError string go_error

fun Error_msg :: "go_error \<Rightarrow> string" where
  "Error_msg Canceled = ''context canceled''"
| "Error_msg DeadlineExceeded = ''context deadline exceeded''"
| "Error_msg (ErrorString s) = s"
| "Error_msg (WrapError s _) = s"

text \<open>\<open>fmt.Errorf(prefix + "%w", err)\<close>: the message is the prefix followed by the
  message of \<open>err\<close>, and \<open>err\<close> stays reachable through \<open>Unwrap\<close>.\<close>

definition Errorf_w :: "string \<Rightarrow> go_error \<Rightarrow> go_error" where
  "Errorf_w prefix err = WrapError (prefix @ Error_msg err) err"

text \<open>
  The verb \<open>%q\<close> of package \<open>fmt\<close> prints a string as a double-quoted Go literal. For
  printable ASCII, which is all the parser hands to it (the verb is reached only with one
  of the literal flags \<open>/show\<close>, \<open>/save\<close>, \<open>/delete\<close>), that means: a double quote before
  and after, and a backslash in front of every double quote and backslash inside.
\<close>

definition quote_char :: "char \<Rightarrow> string" where
  "quote_char c = (if c = CHR 0x22 \<or> c = CHR 0x5C then [CHR 0x5C, c] else [c])"

definition quote :: "string \<Rightarrow> string" where
  "quote s = CHR 0x22 # concat (map quote_char s) @ [CHR 0x22]"


section \<open>Package randomizer: requests\<close>

text \<open>The \<open>iota\<close> block of \<open>operation\<close>, in the order of the source.\<close>

datatype operation =
    makeSelection
  | showHelp
  | listGroups
  | showGroup
  | saveGroup
  | deleteGroup

fun operation_String :: "operation \<Rightarrow> string" where
  "operation_String makeSelection = ''select''"
| "operation_String showHelp = ''help''"
| "operation_String listGroups = ''list''"
| "operation_String showGroup = ''show''"
| "operation_String saveGroup = ''save''"
| "operation_String deleteGroup = ''delete''"

text \<open>
  The type \<open>Error\<close> of the package is declared in a file that is not among the sources;
  \<open>parseArgs\<close> builds it from its two fields \<open>cause\<close> and \<open>helpText\<close>.
\<close>

record Error =
  cause :: go_error
  helpText :: string

record 'ctx request =
  Context :: 'ctx
  Operation :: operation
  Operand :: string
  Args :: "string list"

text \<open>
  \<open>parseArgs\<close> returns the four results \<open>(op, operand, opargs, err)\<close>. A slice is a
  list (the \<open>nil\<close> slice is the empty list), and \<open>err\<close> is \<open>None\<close> for \<open>nil\<close>. The
  \<open>switch\<close> on \<open>args[0]\<close> is written in the order in which Go evaluates it: the three
  flags that set \<open>op\<close> fall out of the \<open>switch\<close> to the length check, \<open>/list\<close> and the
  \<open>default\<close> branch return at once.
\<close>

definition parseArgs :: "string list \<Rightarrow> operation \<times> string \<times> string list \<times> Error option" where
  "parseArgs args =
     (if length args = 0 \<or> args ! 0 = ''/help'' \<or> (length args = 1 \<and> args ! 0 = ''help'')
      then (showHelp, '''', args, None)
      else if args ! 0 = ''/list'' then (listGroups, '''', args, None)
      else if args ! 0 \<noteq> ''/show'' \<and> args ! 0 \<noteq> ''/save'' \<and> args ! 0 \<noteq> ''/delete''
      then (makeSelection, '''', args, None)
      else
        let op = (if args ! 0 = ''/show'' then showGroup
                  else if args ! 0 = ''/save'' then saveGroup
                  else deleteGroup)
        in if length args < 2
           then (op, '''', [],
                 Some \<lparr>cause = ErrorString (quote (args ! 0) @ '' flag requires an argument''),
                       helpText = ''Whoops, '' @ quote (args ! 0) @ '' requires an argument!''\<rparr>)
           else (op, args ! 1, drop 2 args, None))"

definition newRequest :: "'ctx \<Rightarrow> string list \<Rightarrow> 'ctx request \<times> Error option" where
  "newRequest ctx args =
     (case parseArgs args of
        (op, operand, opargs, err) \<Rightarrow>
          (\<lparr>Context = ctx, Operation = op, Operand = operand, Args = opargs\<rparr>, err))"


section \<open>Package randomizer: the application and its dispatcher\<close>

text \<open>
  \<open>App\<close> as the source declares it, its fields \<open>name\<close>, \<open>store\<close> and \<open>shuffle\<close> written
  with the name of the type in front. The store is an interface value, kept abstract. The
  field \<open>shuffle\<close> holds a \<open>func([]string)\<close>, modelled further down.
\<close>

record ('store, 'shuf) App =
  App_name :: string
  App_store :: 'store
  App_shuffle :: 'shuf

text \<open>A call of a Go function returns its results, panics, or waits and never returns.\<close>

datatype 'a outcome = Returned 'a | Panicked | Blocked

text \<open>
  An \<open>appHandler\<close> is a \<open>func(App, request) (Result, error)\<close>. The type \<open>Result\<close> is
  declared outside the sources and stays a type variable; a handler may use the store and
  the random source, so it also maps the state \<open>'w\<close> of everything outside the
  application to a new one.
\<close>

type_synonym ('store, 'shuf, 'ctx, 'res, 'w) appHandler =
  "('store, 'shuf) App \<Rightarrow> 'ctx request \<Rightarrow> 'w \<Rightarrow> ('res \<times> Error option) outcome \<times> 'w"

text \<open>
  The six methods \<open>App.showHelp\<close>, \<open>App.makeSelection\<close>, \<open>App.listGroups\<close>,
  \<open>App.showGroup\<close>, \<open>App.saveGroup\<close> and \<open>App.deleteGroup\<close> are defined in files that
  are not among the sources: they are parameters of the model.
\<close>

record 'h App_methods =
  App_showHelp :: 'h
  App_makeSelection :: 'h
  App_listGroups :: 'h
  App_showGroup :: 'h
  App_saveGroup :: 'h
  App_deleteGroup :: 'h

text \<open>The map literal \<open>appHandlers\<close>, entry by entry, and the lookup in it.\<close>

definition appHandlers_entries :: "'h App_methods \<Rightarrow> (operation \<times> 'h) list" where
  "appHandlers_entries m =
     [(showHelp, App_showHelp m),
      (makeSelection, App_makeSelection m),
      (listGroups, App_listGroups m),
      (showGroup, App_showGroup m),
      (saveGroup, App_saveGroup m),
      (deleteGroup, App_deleteGroup m)]"

definition appHandlers :: "'h App_methods \<Rightarrow> operation \<rightharpoonup> 'h" where
  "appHandlers m = map_of (appHandlers_entries m)"

text \<open>
  \<open>Main\<close>. The tracing span only records what happens and is left out. \<open>zero\<close> stands
  for the composite literal \<open>Result{}\<close>. Indexing a Go map with a key it does not hold
  gives the zero value, here a nil function, and calling that panics.
\<close>

definition Main ::
  "'res \<Rightarrow> ('store, 'shuf, 'ctx, 'res, 'w) appHandler App_methods \<Rightarrow> ('store, 'shuf) App \<Rightarrow>
   'ctx \<Rightarrow> string list \<Rightarrow> 'w \<Rightarrow> ('res \<times> Error option) outcome \<times> 'w" where
  "Main zero m a ctx args w =
     (case newRequest ctx args of
        (req, Some err) \<Rightarrow> (Returned (zero, Some err), w)
      | (req, None) \<Rightarrow>
          (case appHandlers m (Operation req) of
             None \<Rightarrow> (Panicked, w)
           | Some handler \<Rightarrow> handler a req w))"


section \<open>Package randomizer: the default shuffle\<close>

text \<open>
  \<open>rand.Shuffle\<close> of the standard library (\<open>math/rand/v2\<close>) is the Fisher-Yates loop
  \<^verbatim>\<open>for i := n - 1; i > 0; i-- { j := int(r.uint64n(uint64(i + 1))); swap(i, j) }\<close>
  and panics when \<open>n\<close> is negative. The random source is an input of the model: within one
  run every bound \<open>i + 1\<close> is asked for once, so the draws of a run are a function
  \<open>uint64n\<close> from the bound to the number drawn for it. The function \<open>swap\<close> acts on
  whatever state \<open>'s\<close> its closure captured.
\<close>

fun Shuffle_loop ::
  "(nat \<Rightarrow> nat) \<Rightarrow> (nat \<Rightarrow> nat \<Rightarrow> 's \<Rightarrow> 's outcome) \<Rightarrow> nat \<Rightarrow> 's \<Rightarrow> 's outcome" where
  "Shuffle_loop uint64n swap 0 s = Returned s"
| "Shuffle_loop uint64n swap (Suc i) s =
     (case swap (Suc i) (uint64n (Suc i + 1)) s of
        Returned s' \<Rightarrow> Shuffle_loop uint64n swap i s'
      | Panicked \<Rightarrow> Panicked
      | Blocked \<Rightarrow> Blocked)"

definition rand_Shuffle ::
  "(nat \<Rightarrow> nat) \<Rightarrow> int \<Rightarrow> (nat \<Rightarrow> nat \<Rightarrow> 's \<Rightarrow> 's outcome) \<Rightarrow> 's \<Rightarrow> 's outcome" where
  "rand_Shuffle uint64n n swap s =
     (if n < 0 then Panicked else Shuffle_loop uint64n swap (nat (n - 1)) s)"

text \<open>
  The function literal that \<open>shuffle\<close> hands to \<open>rand.Shuffle\<close>:
  \<open>options[i], options[j] = options[j], options[i]\<close>. Both elements are read before either
  is written, and an index outside the slice panics.
\<close>

definition shuffle_swap :: "nat \<Rightarrow> nat \<Rightarrow> 'a list \<Rightarrow> 'a list outcome" where
  "shuffle_swap i j options =
     (if i < length options \<and> j < length options
      then Returned (options[i := options ! j, j := options ! i])
      else Panicked)"

text \<open>
  \<open>shuffle\<close> changes the slice in place; the model returns its new contents. The source
  shuffles strings. The element type plays no part, and the model leaves it open so that
  the same function can be run on the positions \<open>[0..<n]\<close> to see where each element goes.
\<close>

definition shuffle :: "(nat \<Rightarrow> nat) \<Rightarrow> 'a list \<Rightarrow> 'a list outcome" where
  "shuffle uint64n options =
     rand_Shuffle uint64n (int (length options)) shuffle_swap options"

definition NewApp ::
  "string \<Rightarrow> 'store \<Rightarrow> ('store, (nat \<Rightarrow> nat) \<Rightarrow> string list \<Rightarrow> string list outcome) App" where
  "NewApp name store = \<lparr>App_name = name, App_store = store, App_shuffle = shuffle\<rparr>"

text \<open>
  What \<open>uint64n\<close> promises: a number below its bound. A run on \<open>n\<close> elements asks for the
  bounds from \<open>2\<close> to \<open>n\<close>.
\<close>

definition draws_in_range :: "nat \<Rightarrow> (nat \<Rightarrow> nat) \<Rightarrow> bool" where
  "draws_in_range n uint64n = (\<forall>k. 2 \<le> k \<and> k \<le> n \<longrightarrow> uint64n k < k)"


section \<open>Package awsconfig\<close>

text \<open>
  \<open>awsconfig.New\<close> builds an HTTP client and calls \<open>config.LoadDefaultConfig\<close> of the AWS
  SDK; what that call answers is an input of the model. When it fails, \<open>New\<close> wraps the
  error; the configuration value itself is opaque.
\<close>

definition awsconfig_New :: "go_error option \<Rightarrow> go_error option" where
  "awsconfig_New LoadDefaultConfig_err =
     (case LoadDefaultConfig_err of
        Some err \<Rightarrow> Some (Errorf_w ''loading AWS config: '' err)
      | None \<Rightarrow> None)"


section \<open>Package slack: token providers\<close>

text \<open>
  A \<open>time.Time\<close> is an instant and a \<open>time.Duration\<close> a number of nanoseconds. Instants are
  counted in nanoseconds from the zero \<open>Time\<close>, the value of a \<open>time.Time\<close> variable that was
  never assigned; \<open>t.Before(u)\<close> is \<open>t < u\<close> and \<open>t.Add(d)\<close> is \<open>t + d\<close>.
\<close>

type_synonym Time = int
type_synonym Duration = int

definition Minute :: Duration where
  "Minute = 60 * 1000000000"

definition DefaultAWSParameterTTL :: Duration where
  "DefaultAWSParameterTTL = 2 * Minute"

text \<open>
  A \<open>TokenProvider\<close> is a closure. The two functions that build one are the constructors;
  what the closures do when called is \<open>StaticToken_call\<close> and \<open>AWSParameter_call\<close> below.
\<close>

datatype TokenProvider =
    StaticToken string
  | AWSParameter string Duration

text \<open>
  The environment is the map that \<open>os.LookupEnv\<close> reads: a variable that is set to the
  empty string is \<open>Some ''''\<close>, one that is not set is \<open>None\<close>. \<open>time.ParseDuration\<close> belongs
  to the standard library and is a parameter.
\<close>

definition ssmTTLFromEnv ::
  "(string \<Rightarrow> go_error + Duration) \<Rightarrow> (string \<rightharpoonup> string) \<Rightarrow> go_error + Duration" where
  "ssmTTLFromEnv ParseDuration environ =
     (case environ ''SLACK_TOKEN_SSM_TTL'' of
        None \<Rightarrow> Inr DefaultAWSParameterTTL
      | Some ttlEnv \<Rightarrow>
          (case ParseDuration ttlEnv of
             Inl err \<Rightarrow> Inl (Errorf_w ''SLACK_TOKEN_SSM_TTL is not a valid Go duration: '' err)
           | Inr ttl \<Rightarrow> Inr ttl))"

definition TokenProviderFromEnv ::
  "(string \<Rightarrow> go_error + Duration) \<Rightarrow> (string \<rightharpoonup> string) \<Rightarrow> go_error + TokenProvider" where
  "TokenProviderFromEnv ParseDuration environ =
     (case environ ''SLACK_TOKEN'' of
        Some token \<Rightarrow> Inr (StaticToken token)
      | None \<Rightarrow>
          (case environ ''SLACK_TOKEN_SSM_NAME'' of
             Some ssmName \<Rightarrow>
               (case ssmTTLFromEnv ParseDuration environ of
                  Inl err \<Rightarrow> Inl err
                | Inr ttl \<Rightarrow> Inr (AWSParameter ssmName ttl))
           | None \<Rightarrow>
               Inl (ErrorString ''missing SLACK_TOKEN or SLACK_TOKEN_SSM_NAME in environment'')))"

text \<open>The closure that \<open>StaticToken(token)\<close> returns; it ignores its context.\<close>

definition StaticToken_call :: "string \<Rightarrow> (string \<times> go_error option) outcome" where
  "StaticToken_call token = Returned (token, None)"

text \<open>
  The three variables that the closure of \<open>AWSParameter\<close> captures. \<open>lock\<close> is a channel
  with room for one element; only the number of elements waiting in it matters.
\<close>

record ssm_state =
  lock :: nat
  token :: string
  expiry :: Time

definition AWSParameter_init :: ssm_state where
  "AWSParameter_init = \<lparr>lock = 0, token = '''', expiry = 0\<rparr>"

text \<open>
  The answer of the parameter store, with the pointers of the SDK's types as options:
  \<open>output\<close>, \<open>output.Parameter\<close> and \<open>output.Parameter.Value\<close> may each be nil.
\<close>

record ssm_Parameter =
  Value :: "string option"

record GetParameterOutput =
  Parameter :: "ssm_Parameter option"

text \<open>
  Everything one call of the closure takes from outside: whether the context is done when
  the \<open>select\<close> statement runs (\<open>ctx.Err()\<close> is non-nil exactly when \<open>ctx.Done()\<close> is
  closed), which case the runtime picks when both are ready, the two readings of the clock
  and what the AWS SDK answers.
\<close>

record call_env =
  ctx_Err :: "go_error option"
  pick_send :: bool
  now_check :: Time
  LoadDefaultConfig_err :: "go_error option"
  GetParameter_out :: "GetParameterOutput option"
  GetParameter_err :: "go_error option"
  now_store :: Time

text \<open>The calls that leave the process, in the order in which they are made.\<close>

datatype remote_call =
    Call_awsconfig_New
  | Call_GetParameter string bool

text \<open>
  The \<open>select\<close> statement with the cases \<open>lock <- struct{}{}\<close> and \<open><-ctx.Done()\<close>. The send
  is ready while the channel holds fewer elements than its capacity of one, the receive
  once the context is done. Go picks among ready cases at random and waits when none is.
  The captured variables and the context are taken as they are when the statement
  proceeds; \<open>no_case\<close> stands for a wait that never ends.
\<close>

datatype select_case = case_send | case_Done | no_case

definition select_lock :: "nat \<Rightarrow> bool \<Rightarrow> bool \<Rightarrow> select_case" where
  "select_lock len done pick =
     (if len < 1 \<and> done then (if pick then case_send else case_Done)
      else if len < 1 then case_send
      else if done then case_Done
      else no_case)"

text \<open>
  The body of the closure after the \<open>select\<close> statement, run while the lock is held. It
  yields what the call returns, the remote calls it made and the captured variables.
  \<open>*output.Parameter.Value\<close> panics on a nil pointer, before anything is assigned.
\<close>

definition AWSParameter_locked ::
  "string \<Rightarrow> Duration \<Rightarrow> call_env \<Rightarrow> ssm_state \<Rightarrow>
   (string \<times> go_error option) outcome \<times> remote_call list \<times> ssm_state" where
  "AWSParameter_locked name ttl env s =
     (if now_check env < expiry s then (Returned (token s, None), [], s)
      else
        (case awsconfig_New (LoadDefaultConfig_err env) of
           Some err \<Rightarrow> (Returned ('''', Some err), [Call_awsconfig_New], s)
         | None \<Rightarrow>
             (case GetParameter_err env of
                Some err \<Rightarrow>
                  (Returned ('''', Some (Errorf_w ''loading Slack token parameter: '' err)),
                   [Call_awsconfig_New, Call_GetParameter name True], s)
              | None \<Rightarrow>
                  (case Option.bind (Option.bind (GetParameter_out env) Parameter) Value of
                     None \<Rightarrow> (Panicked, [Call_awsconfig_New, Call_GetParameter name True], s)
                   | Some v \<Rightarrow>
                       (Returned (v, None),
                        [Call_awsconfig_New, Call_GetParameter name True],
                        s\<lparr>token := v, expiry := now_store env + ttl\<rparr>)))))"

text \<open>
  The closure that \<open>AWSParameter(name, ttl)\<close> returns. The deferred function takes the
  element out of the channel again on every way out of the locked part, a panic included.
  The tracing span is left out.
\<close>

definition AWSParameter_call ::
  "string \<Rightarrow> Duration \<Rightarrow> call_env \<Rightarrow> ssm_state \<Rightarrow>
   (string \<times> go_error option) outcome \<times> remote_call list \<times> ssm_state" where
  "AWSParameter_call name ttl env s =
     (case select_lock (lock s) (ctx_Err env \<noteq> None) (pick_send env) of
        no_case \<Rightarrow> (Blocked, [], s)
      | case_Done \<Rightarrow> (Returned ('''', ctx_Err env), [], s)
      | case_send \<Rightarrow>
          (case AWSParameter_locked name ttl env (s\<lparr>lock := lock s + 1\<rparr>) of
             (r, calls, s') \<Rightarrow> (r, calls, s'\<lparr>lock := lock s' - 1\<rparr>)))"


section \<open>The argument parser\<close>

lemma quote_show: "quote ''/show'' = CHR 0x22 # ''/show'' @ [CHR 0x22]"
  by (simp add: quote_def quote_char_def)

lemma quote_save: "quote ''/save'' = CHR 0x22 # ''/save'' @ [CHR 0x22]"
  by (simp add: quote_def quote_char_def)

lemma quote_delete: "quote ''/delete'' = CHR 0x22 # ''/delete'' @ [CHR 0x22]"
  by (simp add: quote_def quote_char_def)

text \<open>
  C5. On the empty token list, on any list that starts with \<open>/help\<close>, and on the list
  that is just \<open>help\<close>, the parser answers \<open>showHelp\<close> with an empty operand, the
  original tokens as arguments and no error. As soon as a token follows \<open>help\<close> the
  exception for the lone word no longer applies and the answer is \<open>makeSelection\<close>.
\<close>

theorem parseArgs_help:
  "parseArgs [] = (showHelp, '''', [], None)
   \<and> parseArgs (''/help'' # rest) = (showHelp, '''', ''/help'' # rest, None)
   \<and> parseArgs [''help''] = (showHelp, '''', [''help''], None)
   \<and> parseArgs (''help'' # x # rest) = (makeSelection, '''', ''help'' # x # rest, None)"
  by (simp add: parseArgs_def)

theorem parseArgs_help_witness:
  "parseArgs [''/help'', ''me''] = (showHelp, '''', [''/help'', ''me''], None)
   \<and> parseArgs [''help'', ''x'', ''me''] = (makeSelection, '''', [''help'', ''x'', ''me''], None)"
  using parseArgs_help [of "[''me'']" "''x''"] by simp

text \<open>
  C6. For each of the flags \<open>/show\<close>, \<open>/save\<close> and \<open>/delete\<close>: with a second token the parser
  succeeds with the flag's operation, the second token as operand and the tokens after it
  as arguments. With the flag alone it fails: the help text and the cause both name the
  flag, quoted, and \<open>Main\<close> returns that error with \<open>Result{}\<close> whatever the handlers
  are, leaving the state outside the application as it was, so no handler has run.
\<close>

theorem parseArgs_operand_flags:
  assumes "(flag, op) \<in> {(''/show'', showGroup), (''/save'', saveGroup), (''/delete'', deleteGroup)}"
  shows "parseArgs (flag # operand # rest) = (op, operand, rest, None)
    \<and> parseArgs [flag] =
        (op, '''', [],
         Some \<lparr>cause = ErrorString (CHR 0x22 # flag @ CHR 0x22 # '' flag requires an argument''),
               helpText = ''Whoops, '' @ CHR 0x22 # flag @ CHR 0x22 # '' requires an argument!''\<rparr>)
    \<and> Main zero m a ctx [flag] w =
        (Returned (zero,
           Some \<lparr>cause = ErrorString (CHR 0x22 # flag @ CHR 0x22 # '' flag requires an argument''),
                 helpText = ''Whoops, '' @ CHR 0x22 # flag @ CHR 0x22 # '' requires an argument!''\<rparr>),
         w)"
  using assms
  by (auto simp add: parseArgs_def Main_def newRequest_def quote_show quote_save quote_delete)

theorem parseArgs_operand_flags_witness:
  "parseArgs [''/show'', ''g'', ''a'', ''b''] = (showGroup, ''g'', [''a'', ''b''], None)
   \<and> snd (snd (snd (parseArgs [''/show''])))
       = Some \<lparr>cause = ErrorString (CHR 0x22 # ''/show'' @ CHR 0x22 # '' flag requires an argument''),
               helpText = ''Whoops, '' @ CHR 0x22 # ''/show'' @ CHR 0x22 # '' requires an argument!''\<rparr>
   \<and> snd (Main () \<lparr>App_showHelp = (\<lambda>a r w. (Panicked, Suc w)),
                     App_makeSelection = (\<lambda>a r w. (Panicked, Suc w)),
                     App_listGroups = (\<lambda>a r w. (Panicked, Suc w)),
                     App_showGroup = (\<lambda>a r w. (Panicked, Suc w)),
                     App_saveGroup = (\<lambda>a r w. (Panicked, Suc w)),
                     App_deleteGroup = (\<lambda>a r w. (Panicked, Suc w))\<rparr>
            \<lparr>App_name = ''r'', App_store = (), App_shuffle = ()\<rparr> () [''/show''] (0::nat)) = 0"
  using parseArgs_operand_flags [of "''/show''" showGroup "''g''" "[''a'', ''b'']" "()"
      "\<lparr>App_showHelp = (\<lambda>a r w. (Panicked, Suc w)),
        App_makeSelection = (\<lambda>a r w. (Panicked, Suc w)),
        App_listGroups = (\<lambda>a r w. (Panicked, Suc w)),
        App_showGroup = (\<lambda>a r w. (Panicked, Suc w)),
        App_saveGroup = (\<lambda>a r w. (Panicked, Suc w)),
        App_deleteGroup = (\<lambda>a r w. (Panicked, Suc w))\<rparr>"
      "\<lparr>App_name = ''r'', App_store = (), App_shuffle = ()\<rparr>" "()" "0::nat"]
  by simp

text \<open>
  C7. A non-empty token list whose first token is none of \<open>/help\<close>, \<open>/list\<close>, \<open>/show\<close>,
  \<open>/save\<close>, \<open>/delete\<close>, and which is not the lone token \<open>help\<close>, is a selection: empty
  operand, all the tokens as arguments, no error. That includes every other token that
  starts with a slash.
\<close>

theorem parseArgs_select:
  assumes "args \<noteq> []"
    and "args ! 0 \<notin> {''/help'', ''/list'', ''/show'', ''/save'', ''/delete''}"
    and "args \<noteq> [''help'']"
  shows "parseArgs args = (makeSelection, '''', args, None)"
proof (cases args)
  case Nil
  with assms(1) show ?thesis by simp
next
  case (Cons a rest)
  with assms(2) have flags: "a \<noteq> ''/help''" "a \<noteq> ''/list''" "a \<noteq> ''/show''"
    "a \<noteq> ''/save''" "a \<noteq> ''/delete''"
    by auto
  from Cons assms(3) have "\<not> (length args = 1 \<and> a = ''help'')"
    by (cases rest) auto
  with Cons flags show ?thesis
    by (simp add: parseArgs_def)
qed

theorem parseArgs_select_witness:
  "parseArgs [''somegroup'', ''x'', ''y''] = (makeSelection, '''', [''somegroup'', ''x'', ''y''], None)
   \<and> parseArgs [''/shuffle'', ''x''] = (makeSelection, '''', [''/shuffle'', ''x''], None)"
  using parseArgs_select [of "[''somegroup'', ''x'', ''y'']"]
    parseArgs_select [of "[''/shuffle'', ''x'']"]
  by simp

text \<open>
  C8. The handler table has exactly one entry for each of the six operations, so the
  lookup is defined on every operation; whenever the parser reports no error, \<open>Main\<close>
  finds the handler of the parsed operation and its result is that handler's result on the
  parsed request: the call of a nil function is never reached.
\<close>

theorem appHandlers_total:
  "(\<forall>op. \<exists>!h. (op, h) \<in> set (appHandlers_entries m))
   \<and> distinct (map fst (appHandlers_entries m))
   \<and> dom (appHandlers m) = UNIV
   \<and> (snd (newRequest ctx args) = None \<longrightarrow>
        (\<exists>handler. appHandlers m (Operation (fst (newRequest ctx args))) = Some handler
           \<and> Main zero m a ctx args w = handler a (fst (newRequest ctx args)) w))"
proof -
  have one: "\<exists>!h. (op, h) \<in> set (appHandlers_entries m)" for op
    by (cases op) (auto simp add: appHandlers_entries_def)
  have dist: "distinct (map fst (appHandlers_entries m))"
    by (simp add: appHandlers_entries_def)
  have look: "appHandlers m op \<noteq> None" for op
    by (cases op) (simp_all add: appHandlers_def appHandlers_entries_def)
  then have total: "dom (appHandlers m) = UNIV"
    by (auto simp add: dom_def)
  have main: "\<exists>handler. appHandlers m (Operation (fst (newRequest ctx args))) = Some handler
           \<and> Main zero m a ctx args w = handler a (fst (newRequest ctx args)) w"
    if "snd (newRequest ctx args) = None"
  proof -
    define req where "req = fst (newRequest ctx args)"
    have req: "newRequest ctx args = (req, None)"
      using that by (simp add: req_def prod_eq_iff)
    from look [of "Operation req"] obtain handler
      where "appHandlers m (Operation req) = Some handler" by auto
    with req show ?thesis by (simp add: Main_def)
  qed
  from one dist total main show ?thesis by blast
qed

theorem appHandlers_total_witness:
  "snd (newRequest () [''/list'']) = None
   \<and> Main (0::nat) \<lparr>App_showHelp = (\<lambda>a r w. (Returned (1, None), w)),
                     App_makeSelection = (\<lambda>a r w. (Returned (2, None), w)),
                     App_listGroups = (\<lambda>a r w. (Returned (3, None), w)),
                     App_showGroup = (\<lambda>a r w. (Returned (4, None), w)),
                     App_saveGroup = (\<lambda>a r w. (Returned (5, None), w)),
                     App_deleteGroup = (\<lambda>a r w. (Returned (6, None), w))\<rparr>
            \<lparr>App_name = ''r'', App_store = (), App_shuffle = ()\<rparr> () [''/list''] ()
       = (Returned (3, None), ())"
proof -
  let ?m = "\<lparr>App_showHelp = (\<lambda>a r w. (Returned (1::nat, None), w)),
                     App_makeSelection = (\<lambda>a r w. (Returned (2, None), w)),
                     App_listGroups = (\<lambda>a r w. (Returned (3, None), w)),
                     App_showGroup = (\<lambda>a r w. (Returned (4, None), w)),
                     App_saveGroup = (\<lambda>a r w. (Returned (5, None), w)),
                     App_deleteGroup = (\<lambda>a (r :: unit request) (w :: unit). (Returned (6, None), w))\<rparr>
            :: (unit, unit, unit, nat, unit) appHandler App_methods"
  have ok: "snd (newRequest () [''/list'']) = None"
    by (simp add: newRequest_def parseArgs_def)
  have op: "Operation (fst (newRequest () [''/list''])) = listGroups"
    by (simp add: newRequest_def parseArgs_def)
  from appHandlers_total [of ?m "()" "[''/list'']" 0 "\<lparr>App_name = ''r'', App_store = (), App_shuffle = ()\<rparr>" "()"] ok
  obtain handler where h: "appHandlers ?m (Operation (fst (newRequest () [''/list'']))) = Some handler"
    and m: "Main 0 ?m \<lparr>App_name = ''r'', App_store = (), App_shuffle = ()\<rparr> () [''/list''] ()
          = handler \<lparr>App_name = ''r'', App_store = (), App_shuffle = ()\<rparr> (fst (newRequest () [''/list''])) ()"
    by blast
  from h op have "handler = (\<lambda>a r w. (Returned (3, None), w))"
    by (simp add: appHandlers_def appHandlers_entries_def)
  with m ok show ?thesis by simp
qed


section \<open>The default shuffle\<close>

text \<open>
  The loop of \<open>rand.Shuffle\<close> works from the last position down: the swap at position
  \<open>i\<close> fixes what ends up there, and the later steps only touch the positions below.
  The lemmas follow that shape, one element at the end of the list at a time.
\<close>

lemma shuffle_eq_loop: "shuffle d xs = Shuffle_loop d shuffle_swap (length xs - 1) xs"
  by (simp add: shuffle_def rand_Shuffle_def nat_diff_distrib')

lemma shuffle_swap_in: "i < length xs \<Longrightarrow> j < length xs \<Longrightarrow>
  shuffle_swap i j xs = Returned (xs[i := xs ! j, j := xs ! i])"
  by (simp add: shuffle_swap_def)

lemma mset_swapped: "i < length xs \<Longrightarrow> j < length xs \<Longrightarrow> mset (xs[i := xs ! j, j := xs ! i]) = mset xs"
  by (simp add: mset_swap)

lemma loop_perm:
  "draws_in_range (Suc i) d \<Longrightarrow> i < length xs \<or> i = 0 \<Longrightarrow>
   \<exists>ys. Shuffle_loop d shuffle_swap i xs = Returned ys \<and> mset ys = mset xs"
proof (induction i arbitrary: xs)
  case 0
  then show ?case by simp
next
  case (Suc i)
  let ?j = "d (Suc (Suc i))"
  from Suc.prems have len: "Suc i < length xs" by simp
  from Suc.prems(1) have j: "?j < Suc (Suc i)" by (simp add: draws_in_range_def)
  with len have jl: "?j < length xs" by simp
  let ?xs' = "xs[Suc i := xs ! ?j, ?j := xs ! Suc i]"
  have r: "draws_in_range (Suc i) d" using Suc.prems(1) by (simp add: draws_in_range_def)
  have "i < length ?xs'" using len by simp
  with Suc.IH[OF r, of ?xs'] obtain ys where
    "Shuffle_loop d shuffle_swap i ?xs' = Returned ys" "mset ys = mset ?xs'" by blast
  with len jl show ?case by (simp add: shuffle_swap_in mset_swapped)
qed

lemma loop_cong:
  "(\<forall>k. 2 \<le> k \<and> k \<le> Suc i \<longrightarrow> d k = d' k) \<Longrightarrow>
   Shuffle_loop d sw i xs = Shuffle_loop d' sw i xs"
proof (induction i arbitrary: xs)
  case 0
  then show ?case by simp
next
  case (Suc i)
  then have "d (Suc (Suc i)) = d' (Suc (Suc i))" by simp
  moreover have "Shuffle_loop d sw i ys = Shuffle_loop d' sw i ys" for ys
    using Suc by simp
  ultimately show ?case by (simp split: outcome.splits)
qed

lemma loop_append:
  "draws_in_range (Suc i) d \<Longrightarrow> i < length xs \<Longrightarrow>
   Shuffle_loop d shuffle_swap i xs = Returned ys \<Longrightarrow>
   Shuffle_loop d shuffle_swap i (xs @ zs) = Returned (ys @ zs)"
proof (induction i arbitrary: xs)
  case 0
  then show ?case by simp
next
  case (Suc i)
  let ?j = "d (Suc (Suc i))"
  from Suc.prems have len: "Suc i < length xs" by simp
  from Suc.prems(1) have j: "?j < Suc (Suc i)" by (simp add: draws_in_range_def)
  with len have jl: "?j < length xs" by simp
  let ?xs' = "xs[Suc i := xs ! ?j, ?j := xs ! Suc i]"
  have r: "draws_in_range (Suc i) d" using Suc.prems(1) by (simp add: draws_in_range_def)
  have l': "i < length ?xs'" using len by simp
  from Suc.prems(3) len jl have "Shuffle_loop d shuffle_swap i ?xs' = Returned ys"
    by (simp add: shuffle_swap_in)
  from Suc.IH[OF r l' this] len jl show ?case
    by (simp add: shuffle_swap_in list_update_append1 nth_append)
qed

lemma loop_map:
  "Shuffle_loop d shuffle_swap i (map f xs) = map_outcome (map f) (Shuffle_loop d shuffle_swap i xs)"
proof (induction i arbitrary: xs)
  case 0
  then show ?case by simp
next
  case (Suc i)
  show ?case
  proof (cases "Suc i < length xs \<and> d (Suc (Suc i)) < length xs")
    case True
    then show ?thesis using Suc[of "xs[Suc i := xs ! d (Suc (Suc i)), d (Suc (Suc i)) := xs ! Suc i]"]
      by (simp add: shuffle_swap_in map_update)
  next
    case False
    then show ?thesis by (auto simp add: shuffle_swap_def)
  qed
qed


lemma swap_snoc:
  assumes "length xs = Suc k" and "j \<le> Suc k"
  shows "(xs @ [x])[Suc k := (xs @ [x]) ! j, j := (xs @ [x]) ! Suc k] = xs[j := x] @ [(xs @ [x]) ! j]"
proof (cases "j = Suc k")
  case True
  with assms show ?thesis by (simp add: nth_append list_update_append list_update_beyond)
next
  case False
  with assms have "j < length xs" by simp
  with assms show ?thesis by (simp add: nth_append list_update_append)
qed

lemma loop_snoc:
  assumes r: "draws_in_range (Suc (Suc k)) d" and len: "length xs = Suc k"
    and rest: "Shuffle_loop d shuffle_swap k (xs[d (Suc (Suc k)) := x]) = Returned ys"
  shows "Shuffle_loop d shuffle_swap (Suc k) (xs @ [x]) = Returned (ys @ [(xs @ [x]) ! d (Suc (Suc k))])"
proof -
  let ?j = "d (Suc (Suc k))"
  from r have j: "?j < Suc (Suc k)" by (simp add: draws_in_range_def)
  have r': "draws_in_range (Suc k) d" using r by (simp add: draws_in_range_def)
  have lr: "k < length (xs[?j := x])" using len by simp
  from j have "?j \<le> Suc k" by simp
  note sw = swap_snoc[OF len this, of x]
  from loop_append[OF r' lr rest] have
    "Shuffle_loop d shuffle_swap k (xs[?j := x] @ [(xs @ [x]) ! ?j]) = Returned (ys @ [(xs @ [x]) ! ?j])" .
  with sw have "Shuffle_loop d shuffle_swap k
      ((xs @ [x])[Suc k := (xs @ [x]) ! ?j, ?j := (xs @ [x]) ! Suc k]) = Returned (ys @ [(xs @ [x]) ! ?j])"
    by simp
  moreover have "shuffle_swap (Suc k) ?j (xs @ [x])
      = Returned ((xs @ [x])[Suc k := (xs @ [x]) ! ?j, ?j := (xs @ [x]) ! Suc k])"
    using j len by (intro shuffle_swap_in) simp_all
  ultimately show ?thesis by simp
qed

lemma loop_snoc_inv:
  assumes r: "draws_in_range (Suc (Suc k)) d" and len: "length xs = Suc k"
    and res: "Shuffle_loop d shuffle_swap (Suc k) (xs @ [x]) = Returned zs"
  shows "\<exists>ys. zs = ys @ [(xs @ [x]) ! d (Suc (Suc k))] \<and>
     Shuffle_loop d shuffle_swap k (xs[d (Suc (Suc k)) := x]) = Returned ys"
proof -
  have r': "draws_in_range (Suc k) d" using r by (simp add: draws_in_range_def)
  have "k < length (xs[d (Suc (Suc k)) := x]) \<or> k = 0" using len by simp
  from loop_perm[OF r' this] obtain ys
    where ys: "Shuffle_loop d shuffle_swap k (xs[d (Suc (Suc k)) := x]) = Returned ys" by blast
  from loop_snoc[OF r len ys] res have "zs = ys @ [(xs @ [x]) ! d (Suc (Suc k))]" by simp
  with ys show ?thesis by blast
qed

lemma loop_onto:
  "length xs = Suc k \<Longrightarrow> mset ys = mset xs \<Longrightarrow>
   \<exists>d. draws_in_range (Suc k) d \<and> Shuffle_loop d shuffle_swap k xs = Returned ys"
proof (induction k arbitrary: xs ys)
  case 0
  then obtain a where "xs = [a]" by (cases xs) auto
  with 0 have "ys = [a]" by simp
  with \<open>xs = [a]\<close> show ?case by (auto simp add: draws_in_range_def)
next
  case (Suc k)
  from Suc.prems(1) obtain xs0 x where xs: "xs = xs0 @ [x]" and l0: "length xs0 = Suc k"
    by (cases xs rule: rev_cases) auto
  from Suc.prems have "length ys = Suc (Suc k)" by (metis size_mset)
  then obtain ys0 y where ys: "ys = ys0 @ [y]"
    by (cases ys rule: rev_cases) auto
  from Suc.prems(2) ys have "y \<in> set xs" by (metis in_set_conv_decomp mset_eq_setD)
  then obtain j where j: "j < length xs" "xs ! j = y" by (auto simp add: in_set_conv_nth)
  have lr: "length (xs0[j := x]) = Suc k" using l0 by simp
  have mr: "mset ys0 = mset (xs0[j := x])"
  proof (cases "j = Suc k")
    case True
    with j xs l0 have "y = x" by (simp add: nth_append)
    moreover have "xs0[j := x] = xs0" using True l0 by (simp add: list_update_beyond)
    ultimately show ?thesis using Suc.prems(2) xs ys by simp
  next
    case False
    with j xs l0 have jl: "j < length xs0" and yj: "xs0 ! j = y" by (simp_all add: nth_append)
    from Suc.prems(2) xs ys have "mset ys0 + {#y#} = mset xs0 + {#x#}" by simp
    moreover from jl yj have "y \<in># mset xs0" by (metis nth_mem_mset)
    ultimately have "mset ys0 = mset xs0 - {#y#} + {#x#}"
      by (metis add_mset_add_single add_mset_remove_trivial insert_DiffM union_mset_add_mset_left)
    with False jl yj show ?thesis by (simp add: mset_update)
  qed
  from Suc.IH[OF lr mr] obtain d0 where d0: "draws_in_range (Suc k) d0"
    and run0: "Shuffle_loop d0 shuffle_swap k (xs0[j := x]) = Returned ys0" by blast
  define d where "d = d0(Suc (Suc k) := j)"
  have dj: "d (Suc (Suc k)) = j" by (simp add: d_def)
  have r: "draws_in_range (Suc (Suc k)) d"
    using d0 j(1) Suc.prems(1) by (auto simp add: draws_in_range_def d_def)
  have "Shuffle_loop d shuffle_swap k (xs0[j := x]) = Shuffle_loop d0 shuffle_swap k (xs0[j := x])"
    by (rule loop_cong) (simp add: d_def)
  with run0 have run: "Shuffle_loop d shuffle_swap k (xs0[d (Suc (Suc k)) := x]) = Returned ys0"
    by (simp add: dj)
  from loop_snoc[OF r l0 run] dj j(2) xs ys have "Shuffle_loop d shuffle_swap (Suc k) xs = Returned ys"
    by simp
  with r show ?case by blast
qed

lemma loop_inj:
  "length xs = Suc k \<Longrightarrow> distinct xs \<Longrightarrow> draws_in_range (Suc k) d \<Longrightarrow> draws_in_range (Suc k) d' \<Longrightarrow>
   Shuffle_loop d shuffle_swap k xs = Returned ys \<Longrightarrow> Shuffle_loop d' shuffle_swap k xs = Returned ys \<Longrightarrow>
   2 \<le> n \<Longrightarrow> n \<le> Suc k \<Longrightarrow> d n = d' n"
proof (induction k arbitrary: xs ys)
  case 0
  then show ?case by simp
next
  case (Suc k)
  from Suc.prems(1) obtain xs0 x where xs: "xs = xs0 @ [x]" and l0: "length xs0 = Suc k"
    by (cases xs rule: rev_cases) auto
  let ?j = "d (Suc (Suc k))" and ?j' = "d' (Suc (Suc k))"
  from loop_snoc_inv[OF Suc.prems(3) l0 Suc.prems(5)[unfolded xs]] obtain ys1
    where y1: "ys = ys1 @ [xs ! ?j]"
      and run1: "Shuffle_loop d shuffle_swap k (xs0[?j := x]) = Returned ys1"
    using xs by blast
  from loop_snoc_inv[OF Suc.prems(4) l0 Suc.prems(6)[unfolded xs]] obtain ys2
    where y2: "ys = ys2 @ [xs ! ?j']"
      and run2: "Shuffle_loop d' shuffle_swap k (xs0[?j' := x]) = Returned ys2"
    using xs by blast
  from y1 y2 have same: "xs ! ?j = xs ! ?j'" and ys12: "ys1 = ys2" by simp_all
  from Suc.prems(3) have j: "?j < length xs" using Suc.prems(1) by (simp add: draws_in_range_def)
  from Suc.prems(4) have j': "?j' < length xs" using Suc.prems(1) by (simp add: draws_in_range_def)
  from same j j' Suc.prems(2) have jj: "?j = ?j'" by (simp add: nth_eq_iff_index_eq)
  have lr: "length (xs0[?j := x]) = Suc k" using l0 by simp
  from Suc.prems(2) xs have "distinct xs0" "x \<notin> set xs0" by simp_all
  then have dr: "distinct (xs0[?j := x])" by (simp add: distinct_list_update)
  have r: "draws_in_range (Suc k) d" using Suc.prems(3) by (simp add: draws_in_range_def)
  have r': "draws_in_range (Suc k) d'" using Suc.prems(4) by (simp add: draws_in_range_def)
  from run2 jj ys12 have run2': "Shuffle_loop d' shuffle_swap k (xs0[?j := x]) = Returned ys1" by simp
  show ?case
  proof (cases "n = Suc (Suc k)")
    case True
    with jj show ?thesis by simp
  next
    case False
    with Suc.prems(8) have "n \<le> Suc k" by simp
    from Suc.IH[OF lr dr r r' run1 run2' Suc.prems(7) this] show ?thesis .
  qed
qed



lemma shuffle_positions:
  "shuffle d options = map_outcome (map ((!) options)) (shuffle d [0..<length options])"
proof -
  have "shuffle d (map ((!) options) [0..<length options])
      = map_outcome (map ((!) options)) (shuffle d [0..<length options])"
    by (simp add: shuffle_eq_loop loop_map)
  then show ?thesis by (simp add: map_nth)
qed

lemma shuffle_perm:
  assumes "draws_in_range (length xs) d"
  shows "\<exists>ys. shuffle d xs = Returned ys \<and> mset ys = mset xs"
proof (cases xs)
  case Nil
  then show ?thesis by (simp add: shuffle_eq_loop)
next
  case (Cons a as)
  with assms have "draws_in_range (Suc (length xs - 1)) d" by simp
  moreover from Cons have "length xs - 1 < length xs \<or> length xs - 1 = 0" by simp
  ultimately show ?thesis unfolding shuffle_eq_loop by (rule loop_perm)
qed

lemma shuffle_onto:
  assumes "mset ys = mset xs"
  shows "\<exists>d. draws_in_range (length xs) d \<and> shuffle d xs = Returned ys"
proof (cases xs)
  case Nil
  with assms show ?thesis by (simp add: shuffle_eq_loop draws_in_range_def)
next
  case (Cons a as)
  then have "length xs = Suc (length xs - 1)" by simp
  from loop_onto[OF this assms] this show ?thesis by (simp add: shuffle_eq_loop)
qed

lemma shuffle_inj:
  assumes "distinct xs" and "draws_in_range (length xs) d" and "draws_in_range (length xs) d'"
    and "shuffle d xs = Returned ys" and "shuffle d' xs = Returned ys"
    and "2 \<le> k" and "k \<le> length xs"
  shows "d k = d' k"
proof -
  from assms(6,7) have len: "length xs = Suc (length xs - 1)" by simp
  from assms(2,3) len have r: "draws_in_range (Suc (length xs - 1)) d"
    "draws_in_range (Suc (length xs - 1)) d'" by simp_all
  from assms(7) len have k: "k \<le> Suc (length xs - 1)" by simp
  from loop_inj[OF len assms(1) r assms(4,5)[unfolded shuffle_eq_loop] assms(6) k]
  show ?thesis .
qed

text \<open>
  C9. The shuffle that \<open>NewApp\<close> installs, run with draws that respect their bounds (each
  \<open>uint64n k\<close> is below \<open>k\<close>, which is what the random source of the standard library
  promises), returns, and returns a rearrangement of the options: the option that ends at
  each position is the one from the position that the same run on \<open>[0..<n]\<close> puts there,
  the length is kept and so is the multiset of elements. It is uniform: for every
  permutation \<open>ps\<close> of the positions there are in-range draws that produce it, and any two
  in-range runs that produce it drew the same number for every bound from \<open>2\<close> to \<open>n\<close>.
  The \<open>2 * 3 * ... * n\<close> possible draws thus correspond one to one to the permutations,
  so draws that are independent and uniform on their ranges make every permutation equally
  likely. How well the generator behind \<open>uint64n\<close> meets that is outside the model.
\<close>

theorem shuffle_uniform_permutation:
  fixes options :: "string list"
  assumes "\<forall>k. 2 \<le> k \<and> k \<le> length options \<longrightarrow> uint64n k < k"
  shows "(\<exists>ps. shuffle uint64n [0..<length options] = Returned ps
            \<and> mset ps = mset [0..<length options]
            \<and> App_shuffle (NewApp name store) uint64n options = Returned (map ((!) options) ps)
            \<and> length (map ((!) options) ps) = length options
            \<and> mset (map ((!) options) ps) = mset options)
    \<and> (\<forall>ps. mset ps = mset [0..<length options] \<longrightarrow>
          (\<exists>d. (\<forall>k. 2 \<le> k \<and> k \<le> length options \<longrightarrow> d k < k)
             \<and> shuffle d [0..<length options] = Returned ps
             \<and> App_shuffle (NewApp name store) d options = Returned (map ((!) options) ps)
             \<and> (\<forall>d'. (\<forall>k. 2 \<le> k \<and> k \<le> length options \<longrightarrow> d' k < k)
                     \<and> shuffle d' [0..<length options] = Returned ps
                   \<longrightarrow> (\<forall>k. 2 \<le> k \<and> k \<le> length options \<longrightarrow> d' k = d k))))"
proof (intro conjI allI impI)
  let ?n = "length options"
  from assms have r: "draws_in_range (length [0..<?n]) uint64n"
    by (simp add: draws_in_range_def)
  from shuffle_perm[OF r] obtain ps
    where ps: "shuffle uint64n [0..<?n] = Returned ps" "mset ps = mset [0..<?n]" by blast
  have run: "App_shuffle (NewApp name store) uint64n options = Returned (map ((!) options) ps)"
    using ps(1) shuffle_positions[of uint64n options] by (simp add: NewApp_def)
  have "mset (map ((!) options) ps) = mset (map ((!) options) [0..<?n])"
    using ps(2) by (metis mset_map)
  then have m: "mset (map ((!) options) ps) = mset options" by (simp add: map_nth)
  then have "length (map ((!) options) ps) = length options" by (metis size_mset)
  with ps run m
  show "\<exists>ps. shuffle uint64n [0..<?n] = Returned ps
            \<and> mset ps = mset [0..<?n]
            \<and> App_shuffle (NewApp name store) uint64n options = Returned (map ((!) options) ps)
            \<and> length (map ((!) options) ps) = length options
            \<and> mset (map ((!) options) ps) = mset options" by blast
next
  fix ps :: "nat list"
  let ?n = "length options"
  assume "mset ps = mset [0..<?n]"
  from shuffle_onto[OF this] obtain d
    where d: "draws_in_range ?n d" "shuffle d [0..<?n] = Returned ps" by auto
  have run: "App_shuffle (NewApp name store) d options = Returned (map ((!) options) ps)"
    using d(2) shuffle_positions[of d options] by (simp add: NewApp_def)
  have uniq: "d' k = d k"
    if "\<forall>k. 2 \<le> k \<and> k \<le> ?n \<longrightarrow> d' k < k" "shuffle d' [0..<?n] = Returned ps"
      "2 \<le> k" "k \<le> ?n" for d' k
  proof -
    from that(1) have "draws_in_range (length [0..<?n]) d'" by (simp add: draws_in_range_def)
    moreover from d(1) have "draws_in_range (length [0..<?n]) d" by simp
    moreover have "distinct [0..<?n]" by simp
    ultimately show ?thesis using that(2,3,4) d(2) shuffle_inj[of "[0..<?n]" d' d ps k] by simp
  qed
  from d run uniq
  show "\<exists>d. (\<forall>k. 2 \<le> k \<and> k \<le> ?n \<longrightarrow> d k < k)
             \<and> shuffle d [0..<?n] = Returned ps
             \<and> App_shuffle (NewApp name store) d options = Returned (map ((!) options) ps)
             \<and> (\<forall>d'. (\<forall>k. 2 \<le> k \<and> k \<le> ?n \<longrightarrow> d' k < k)
                     \<and> shuffle d' [0..<?n] = Returned ps
                   \<longrightarrow> (\<forall>k. 2 \<le> k \<and> k \<le> ?n \<longrightarrow> d' k = d k))"
    unfolding draws_in_range_def by blast
qed

theorem shuffle_uniform_permutation_witness:
  "App_shuffle (NewApp ''randomizer'' ()) (\<lambda>k. if k = 3 then 0 else 1) [''a'', ''b'', ''c'']
     = Returned [''c'', ''b'', ''a'']
   \<and> mset [''c'', ''b'', ''a''] = mset [''a'', ''b'', ''c'']
   \<and> (\<exists>d. d 2 < 2 \<and> d 3 < 3
         \<and> App_shuffle (NewApp ''randomizer'' ()) d [''a'', ''b'', ''c'']
             = Returned [''b'', ''c'', ''a''])"
proof -
  let ?f = "\<lambda>k::nat. if k = 3 then 0 else (1::nat)"
  let ?options = "[''a'', ''b'', ''c'']"
  have h: "\<forall>k. 2 \<le> k \<and> k \<le> length ?options \<longrightarrow> ?f k < k" by simp
  note T = shuffle_uniform_permutation [OF h, of "''randomizer''" "()"]
  have three: "[0..<length ?options] = [0, 1, 2::nat]" by (simp add: upt_rec)
  from T obtain ps where ps: "shuffle ?f [0..<length ?options] = Returned ps"
    and run: "App_shuffle (NewApp ''randomizer'' ()) ?f ?options = Returned (map ((!) ?options) ps)"
    and perm: "mset (map ((!) ?options) ps) = mset ?options"
    by blast
  have "shuffle ?f [0, 1, 2::nat] = Returned [2, 1, 0]"
    by (simp add: shuffle_def rand_Shuffle_def shuffle_swap_def eval_nat_numeral)
  with ps have "ps = [2, 1, 0]" unfolding three by simp
  with run perm have first: "App_shuffle (NewApp ''randomizer'' ()) ?f ?options
     = Returned [''c'', ''b'', ''a'']" "mset [''c'', ''b'', ''a''] = mset ?options"
    by simp_all
  have "mset [1, 2, 0] = mset [0..<length ?options]" by (simp add: three)
  with T obtain d where "\<forall>k. 2 \<le> k \<and> k \<le> length ?options \<longrightarrow> d k < k"
    and "App_shuffle (NewApp ''randomizer'' ()) d ?options = Returned (map ((!) ?options) [1, 2, 0])"
    by blast
  then have "d 2 < 2 \<and> d 3 < 3
      \<and> App_shuffle (NewApp ''randomizer'' ()) d ?options = Returned [''b'', ''c'', ''a'']"
    by simp
  with first show ?thesis by blast
qed


section \<open>The cached token provider\<close>

text \<open>
  C1. A call whose \<open>select\<close> statement takes the send case is inside the locked part.
  If the clock read there is strictly before \<open>expiry\<close>, the call returns the cached token
  with a nil error, makes no remote call and leaves the captured variables as they were.
  Otherwise it starts one fetch: the configuration step, followed by one \<open>GetParameter\<close>
  call for the parameter (with decryption) when that step succeeds, and nothing more. When
  the fetch succeeds with a value, that value becomes \<open>token\<close>, \<open>expiry\<close> becomes the
  clock read after the fetch plus the TTL, and the new value is returned with a nil error.
\<close>

theorem AWSParameter_cache:
  assumes "select_lock (lock s) (ctx_Err env \<noteq> None) (pick_send env) = case_send"
  shows "(now_check env < expiry s \<longrightarrow>
            AWSParameter_call name ttl env s = (Returned (token s, None), [], s))
    \<and> (\<not> now_check env < expiry s \<longrightarrow>
          fst (snd (AWSParameter_call name ttl env s)) =
            Call_awsconfig_New #
              (if LoadDefaultConfig_err env = None then [Call_GetParameter name True] else []))
    \<and> (\<not> now_check env < expiry s \<and> LoadDefaultConfig_err env = None
          \<and> GetParameter_err env = None
          \<and> GetParameter_out env = Some \<lparr>Parameter = Some \<lparr>Value = Some v\<rparr>\<rparr> \<longrightarrow>
          AWSParameter_call name ttl env s =
            (Returned (v, None), [Call_awsconfig_New, Call_GetParameter name True],
             s\<lparr>token := v, expiry := now_store env + ttl\<rparr>))"
  using assms
  by (auto simp add: AWSParameter_call_def AWSParameter_locked_def awsconfig_New_def
      split: option.splits)

theorem AWSParameter_cache_witness:
  "AWSParameter_call ''p'' 10
      \<lparr>ctx_Err = None, pick_send = True, now_check = 99, LoadDefaultConfig_err = None,
        GetParameter_out = None, GetParameter_err = None, now_store = 99\<rparr>
      \<lparr>lock = 0, token = ''old'', expiry = 100\<rparr>
     = (Returned (''old'', None), [], \<lparr>lock = 0, token = ''old'', expiry = 100\<rparr>)
   \<and> AWSParameter_call ''p'' 10
      \<lparr>ctx_Err = None, pick_send = True, now_check = 100, LoadDefaultConfig_err = None,
        GetParameter_out = Some \<lparr>Parameter = Some \<lparr>Value = Some ''new''\<rparr>\<rparr>,
        GetParameter_err = None, now_store = 105\<rparr>
      \<lparr>lock = 0, token = ''old'', expiry = 100\<rparr>
     = (Returned (''new'', None), [Call_awsconfig_New, Call_GetParameter ''p'' True],
        \<lparr>lock = 0, token = ''new'', expiry = 115\<rparr>)"
proof -
  let ?s = "\<lparr>lock = 0, token = ''old'', expiry = 100\<rparr>"
  let ?hit = "\<lparr>ctx_Err = None, pick_send = True, now_check = 99, LoadDefaultConfig_err = None,
        GetParameter_out = None, GetParameter_err = None, now_store = 99\<rparr>"
  let ?miss = "\<lparr>ctx_Err = None, pick_send = True, now_check = 100, LoadDefaultConfig_err = None,
        GetParameter_out = Some \<lparr>Parameter = Some \<lparr>Value = Some ''new''\<rparr>\<rparr>,
        GetParameter_err = None, now_store = 105\<rparr>"
  have h1: "select_lock (lock ?s) (ctx_Err ?hit \<noteq> None) (pick_send ?hit) = case_send"
    by (simp add: select_lock_def)
  have h2: "select_lock (lock ?s) (ctx_Err ?miss \<noteq> None) (pick_send ?miss) = case_send"
    by (simp add: select_lock_def)
  from AWSParameter_cache [OF h1, of "''p''" 10 "''new''"]
    AWSParameter_cache [OF h2, of "''p''" 10 "''new''"]
  show ?thesis by simp
qed

text \<open>
  C2. When a call inside the locked part misses the cache and the configuration step or
  \<open>GetParameter\<close> fails, it returns the empty string with an error and the captured
  variables are exactly what they were. So the next call that gets inside the locked part,
  at a clock that has not gone backwards, misses the cache again and starts a fetch of its
  own.
\<close>

theorem AWSParameter_no_negative_caching:
  assumes "select_lock (lock s) (ctx_Err env \<noteq> None) (pick_send env) = case_send"
    and "\<not> now_check env < expiry s"
    and "LoadDefaultConfig_err env \<noteq> None \<or> GetParameter_err env \<noteq> None"
    and "AWSParameter_call name ttl env s = (r, calls, s')"
    and "select_lock (lock s') (ctx_Err env' \<noteq> None) (pick_send env') = case_send"
    and "now_check env \<le> now_check env'"
  shows "(\<exists>err. r = Returned ('''', Some err)) \<and> s' = s
    \<and> fst (snd (AWSParameter_call name ttl env' s')) =
          Call_awsconfig_New #
            (if LoadDefaultConfig_err env' = None then [Call_GetParameter name True] else [])"
  using assms
  by (auto simp add: AWSParameter_call_def AWSParameter_locked_def awsconfig_New_def
      split: option.splits)

theorem AWSParameter_no_negative_caching_witness:
  "AWSParameter_call ''p'' 10
      \<lparr>ctx_Err = None, pick_send = True, now_check = 100, LoadDefaultConfig_err = None,
        GetParameter_out = None, GetParameter_err = Some (ErrorString ''throttled''),
        now_store = 105\<rparr>
      \<lparr>lock = 0, token = ''old'', expiry = 100\<rparr>
     = (Returned ('''', Some (WrapError ''loading Slack token parameter: throttled''
                                 (ErrorString ''throttled''))),
        [Call_awsconfig_New, Call_GetParameter ''p'' True],
        \<lparr>lock = 0, token = ''old'', expiry = 100\<rparr>)
   \<and> fst (snd (AWSParameter_call ''p'' 10
      \<lparr>ctx_Err = None, pick_send = True, now_check = 100, LoadDefaultConfig_err = None,
        GetParameter_out = Some \<lparr>Parameter = Some \<lparr>Value = Some ''new''\<rparr>\<rparr>,
        GetParameter_err = None, now_store = 101\<rparr>
      \<lparr>lock = 0, token = ''old'', expiry = 100\<rparr>))
     = [Call_awsconfig_New, Call_GetParameter ''p'' True]"
proof -
  let ?s = "\<lparr>lock = 0, token = ''old'', expiry = 100\<rparr>"
  let ?fail = "\<lparr>ctx_Err = None, pick_send = True, now_check = 100, LoadDefaultConfig_err = None,
        GetParameter_out = None, GetParameter_err = Some (ErrorString ''throttled''),
        now_store = 105\<rparr>"
  let ?next = "\<lparr>ctx_Err = None, pick_send = True, now_check = 100, LoadDefaultConfig_err = None,
        GetParameter_out = Some \<lparr>Parameter = Some \<lparr>Value = Some ''new''\<rparr>\<rparr>,
        GetParameter_err = None, now_store = 101\<rparr>"
  let ?r = "Returned ('''', Some (WrapError ''loading Slack token parameter: throttled''
                                 (ErrorString ''throttled'')))"
  let ?calls = "[Call_awsconfig_New, Call_GetParameter ''p'' True]"
  have h1: "select_lock (lock ?s) (ctx_Err ?fail \<noteq> None) (pick_send ?fail) = case_send"
    by (simp add: select_lock_def)
  have h2: "\<not> now_check ?fail < expiry ?s" by simp
  have h3: "LoadDefaultConfig_err ?fail \<noteq> None \<or> GetParameter_err ?fail \<noteq> None" by simp
  have h4: "AWSParameter_call ''p'' 10 ?fail ?s = (?r, ?calls, ?s)"
    by (simp add: AWSParameter_call_def AWSParameter_locked_def awsconfig_New_def
        select_lock_def Errorf_w_def)
  have h5: "select_lock (lock ?s) (ctx_Err ?next \<noteq> None) (pick_send ?next) = case_send"
    by (simp add: select_lock_def)
  have h6: "now_check ?fail \<le> now_check ?next" by simp
  from AWSParameter_no_negative_caching [OF h1 h2 h3 h4 h5 h6] h4
  show ?thesis by simp
qed




text \<open>
  The deferred receive runs on every way out of the locked part, a nil-pointer panic
  included: after every call the channel holds what it held before.
\<close>

lemma AWSParameter_releases_lock:
  "lock (snd (snd (AWSParameter_call name ttl env s))) = lock s"
  by (auto simp add: AWSParameter_call_def AWSParameter_locked_def awsconfig_New_def
      split: option.splits select_case.splits)


section \<open>Choosing the token provider\<close>

text \<open>
  C10. \<open>TokenProviderFromEnv\<close> prefers \<open>SLACK_TOKEN\<close>: when it is set, even to the empty
  string, the result is the static provider for its value, whatever else is set. When it
  is not set and \<open>SLACK_TOKEN_SSM_NAME\<close> is, the result is the provider for that
  parameter: with a TTL of two minutes when \<open>SLACK_TOKEN_SSM_TTL\<close> is not set, with the
  parsed duration when it is set and parses, and an error that wraps the parser's error,
  not the default, when it does not parse. When neither of the first two is set the result
  is an error.
\<close>

theorem TokenProviderFromEnv_precedence:
  "(environ ''SLACK_TOKEN'' = Some t \<longrightarrow>
      TokenProviderFromEnv ParseDuration environ = Inr (StaticToken t))
   \<and> (environ ''SLACK_TOKEN'' = None \<and> environ ''SLACK_TOKEN_SSM_NAME'' = Some n \<longrightarrow>
        (environ ''SLACK_TOKEN_SSM_TTL'' = None \<longrightarrow>
           TokenProviderFromEnv ParseDuration environ = Inr (AWSParameter n (2 * 60 * 1000000000)))
        \<and> (\<forall>d ttl. environ ''SLACK_TOKEN_SSM_TTL'' = Some d \<and> ParseDuration d = Inr ttl \<longrightarrow>
             TokenProviderFromEnv ParseDuration environ = Inr (AWSParameter n ttl))
        \<and> (\<forall>d err. environ ''SLACK_TOKEN_SSM_TTL'' = Some d \<and> ParseDuration d = Inl err \<longrightarrow>
             TokenProviderFromEnv ParseDuration environ =
               Inl (WrapError (''SLACK_TOKEN_SSM_TTL is not a valid Go duration: '' @ Error_msg err) err)))
   \<and> (environ ''SLACK_TOKEN'' = None \<and> environ ''SLACK_TOKEN_SSM_NAME'' = None \<longrightarrow>
        TokenProviderFromEnv ParseDuration environ =
          Inl (ErrorString ''missing SLACK_TOKEN or SLACK_TOKEN_SSM_NAME in environment''))"
  by (simp add: TokenProviderFromEnv_def ssmTTLFromEnv_def DefaultAWSParameterTTL_def Minute_def
      Errorf_w_def)

theorem TokenProviderFromEnv_precedence_witness:
  "TokenProviderFromEnv (\<lambda>s. Inl (ErrorString ''time: invalid duration''))
      [''SLACK_TOKEN'' \<mapsto> '''', ''SLACK_TOKEN_SSM_NAME'' \<mapsto> ''n''] = Inr (StaticToken '''')
   \<and> TokenProviderFromEnv (\<lambda>s. Inl (ErrorString ''time: invalid duration''))
      [''SLACK_TOKEN_SSM_NAME'' \<mapsto> ''n''] = Inr (AWSParameter ''n'' 120000000000)
   \<and> TokenProviderFromEnv (\<lambda>s. Inl (ErrorString ''time: invalid duration''))
      [''SLACK_TOKEN_SSM_NAME'' \<mapsto> ''n'', ''SLACK_TOKEN_SSM_TTL'' \<mapsto> ''soon'']
     = Inl (WrapError ''SLACK_TOKEN_SSM_TTL is not a valid Go duration: time: invalid duration''
             (ErrorString ''time: invalid duration''))
   \<and> TokenProviderFromEnv (\<lambda>s. Inr 5000000000)
      [''SLACK_TOKEN_SSM_NAME'' \<mapsto> ''n'', ''SLACK_TOKEN_SSM_TTL'' \<mapsto> ''5s'']
     = Inr (AWSParameter ''n'' 5000000000)
   \<and> TokenProviderFromEnv (\<lambda>s. Inr 5000000000) [''SLACK_TOKEN_SSM_TTL'' \<mapsto> ''5s'']
     = Inl (ErrorString ''missing SLACK_TOKEN or SLACK_TOKEN_SSM_NAME in environment'')"
  using
    TokenProviderFromEnv_precedence [of "[''SLACK_TOKEN'' \<mapsto> '''', ''SLACK_TOKEN_SSM_NAME'' \<mapsto> ''n'']"
      "''''" "\<lambda>s. Inl (ErrorString ''time: invalid duration'')" "''n''"]
    TokenProviderFromEnv_precedence [of "[''SLACK_TOKEN_SSM_NAME'' \<mapsto> ''n'']"
      "''''" "\<lambda>s. Inl (ErrorString ''time: invalid duration'')" "''n''"]
    TokenProviderFromEnv_precedence [of
      "[''SLACK_TOKEN_SSM_NAME'' \<mapsto> ''n'', ''SLACK_TOKEN_SSM_TTL'' \<mapsto> ''soon'']"
      "''''" "\<lambda>s. Inl (ErrorString ''time: invalid duration'')" "''n''"]
    TokenProviderFromEnv_precedence [of
      "[''SLACK_TOKEN_SSM_NAME'' \<mapsto> ''n'', ''SLACK_TOKEN_SSM_TTL'' \<mapsto> ''5s'']"
      "''''" "\<lambda>s. Inr 5000000000" "''n''"]
    TokenProviderFromEnv_precedence [of "[''SLACK_TOKEN_SSM_TTL'' \<mapsto> ''5s'']"
      "''''" "\<lambda>s. Inr 5000000000" "''n''"]
  by simp

end
